theory Spec2Isabelle
  imports Main "HOL-Library.AList"
begin

section \<open>Plan2ics: a school timetable in HTML, exported as calendar events\<close>

text \<open>
  The development follows \<^verbatim>\<open>Release/Ver1/Plan2ics.py\<close>, class \<^verbatim>\<open>ScheduleConverter\<close>.
  The Tk widgets are left out; what the methods read from them (the chosen file, the
  week check boxes, the two reminder check boxes, the save dialog) is data of the state
  or an argument, and what they show in a message box is a returned value.
\<close>

subsection \<open>Text\<close>

text \<open>
  A Python \<^verbatim>\<open>str\<close> is modelled as a \<^typ>\<open>string\<close> whose characters are read as the code
  points 0 to 255 (Latin-1, which holds the German umlauts: \<^verbatim>\<open>CHR 0xE4\<close> is a-umlaut).
  The character classes below are those of \<^verbatim>\<open>str.isspace\<close>, of the patterns \<^verbatim>\<open>\d\<close>,
  \<^verbatim>\<open>\w\<close>, \<^verbatim>\<open>\s\<close> of \<^verbatim>\<open>re\<close> on \<^verbatim>\<open>str\<close>, and of \<^verbatim>\<open>str.lower\<close>, on that range.
\<close>

definition is_space :: "char \<Rightarrow> bool" where
  "is_space c = (let n = (of_char c :: nat) in
     (9 \<le> n \<and> n \<le> 13) \<or> (28 \<le> n \<and> n \<le> 32) \<or> n = 133 \<or> n = 160)"

definition is_digit :: "char \<Rightarrow> bool" where
  "is_digit c = (let n = (of_char c :: nat) in 48 \<le> n \<and> n \<le> 57)"

definition is_word :: "char \<Rightarrow> bool" where
  "is_word c = (let n = (of_char c :: nat) in
     (48 \<le> n \<and> n \<le> 57) \<or> (65 \<le> n \<and> n \<le> 90) \<or> n = 95 \<or> (97 \<le> n \<and> n \<le> 122)
     \<or> n = 170 \<or> n = 178 \<or> n = 179 \<or> n = 181 \<or> n = 185 \<or> n = 186
     \<or> (188 \<le> n \<and> n \<le> 190) \<or> (192 \<le> n \<and> n \<le> 214) \<or> (216 \<le> n \<and> n \<le> 246)
     \<or> 248 \<le> n)"

definition lower_char :: "char \<Rightarrow> char" where
  "lower_char c = (let n = (of_char c :: nat) in
     if (65 \<le> n \<and> n \<le> 90) \<or> (192 \<le> n \<and> n \<le> 214) \<or> (216 \<le> n \<and> n \<le> 222)
     then char_of (n + 32) else c)"

text \<open>\<^verbatim>\<open>s.lower()\<close>\<close>

definition lower :: "string \<Rightarrow> string" where
  "lower s = map lower_char s"

text \<open>\<^verbatim>\<open>s.strip()\<close>\<close>

definition strip :: "string \<Rightarrow> string" where
  "strip s = rev (dropWhile is_space (rev (dropWhile is_space s)))"

text \<open>\<^verbatim>\<open>s.split(c)\<close> for a one-character separator: never an empty list.\<close>

fun split :: "char \<Rightarrow> string \<Rightarrow> string list" where
  "split c [] = [[]]"
| "split c (x # xs) =
     (if x = c then [] # split c xs
      else (case split c xs of [] \<Rightarrow> [[x]] | l # ls \<Rightarrow> (x # l) # ls))"

text \<open>\<^verbatim>\<open>int(s)\<close> on a string of decimal digits (the only strings it is called on).\<close>

definition int_of_digits :: "string \<Rightarrow> int" where
  "int_of_digits s = foldl (\<lambda>acc c. 10 * acc + (int (of_char c) - 48)) 0 s"

text \<open>\<^verbatim>\<open>str(n)\<close> for a natural number, as the f-string of the event description prints it.\<close>

fun str_nat :: "nat \<Rightarrow> string" where
  "str_nat n = (if n < 10 then [char_of (48 + n)]
                else str_nat (n div 10) @ [char_of (48 + n mod 10)])"

declare str_nat.simps [simp del]

text \<open>
  \<^verbatim>\<open>re.match(r'(\d{1,2})\.\s*(\w+)', s)\<close>: the two groups, or \<open>None\<close>. The match is
  anchored at the start of \<open>s\<close> only. Each quantifier is greedy, and giving back a
  character never helps: after one digit instead of two the next character is a digit,
  not the dot; a white-space character is no word character. So the match is the
  deterministic scan below. The pattern of the row filter, \<^verbatim>\<open>\d{1,2}\.\s*\w+\<close>, is the
  same one without the groups.
\<close>

definition date_match :: "string \<Rightarrow> (string \<times> string) option" where
  "date_match s =
     (let g1 = takeWhile is_digit (take 2 s) in
      if g1 = [] then None
      else (case drop (length g1) s of
              [] \<Rightarrow> None
            | c # rest \<Rightarrow>
                if c \<noteq> CHR ''.'' then None
                else (let g2 = takeWhile is_word (dropWhile is_space rest) in
                      if g2 = [] then None else Some (g1, g2))))"

subsection \<open>Dates\<close>

text \<open>
  A \<^verbatim>\<open>datetime.date\<close> is modelled by its proleptic Gregorian ordinal (\<^verbatim>\<open>toordinal()\<close>,
  day 1 is 0001-01-01): comparison, hashing, \<^verbatim>\<open>weekday()\<close> and the subtraction of a
  \<^verbatim>\<open>timedelta\<close> of whole days are functions of the ordinal. The constructor checks its
  arguments and raises \<^verbatim>\<open>ValueError\<close>, here \<open>None\<close>.
\<close>

type_synonym date = int

definition is_leap :: "int \<Rightarrow> bool" where
  "is_leap y = (y mod 4 = 0 \<and> (y mod 100 \<noteq> 0 \<or> y mod 400 = 0))"

definition days_in_month :: "int \<Rightarrow> int \<Rightarrow> int" where
  "days_in_month y m =
     (if m = 2 then (if is_leap y then 29 else 28)
      else if m = 4 \<or> m = 6 \<or> m = 9 \<or> m = 11 then 30 else 31)"

definition days_before_year :: "int \<Rightarrow> int" where
  "days_before_year y = (let z = y - 1 in z * 365 + z div 4 - z div 100 + z div 400)"

definition days_before_month :: "int \<Rightarrow> int \<Rightarrow> int" where
  "days_before_month y m =
     [0, 31, 59, 90, 120, 151, 181, 212, 243, 273, 304, 334] ! nat (m - 1)
     + (if m > 2 \<and> is_leap y then 1 else 0)"

definition ymd2ord :: "int \<Rightarrow> int \<Rightarrow> int \<Rightarrow> date" where
  "ymd2ord y m d = days_before_year y + days_before_month y m + d"

text \<open>\<^verbatim>\<open>datetime.date(year, month, day)\<close>\<close>

definition date_new :: "int \<Rightarrow> int \<Rightarrow> int \<Rightarrow> date option" where
  "date_new y m d =
     (if 1 \<le> y \<and> y \<le> 9999 \<and> 1 \<le> m \<and> m \<le> 12 \<and> 1 \<le> d \<and> d \<le> days_in_month y m
      then Some (ymd2ord y m d) else None)"

text \<open>\<^verbatim>\<open>date_obj.weekday()\<close>: Monday is 0, Friday is 4.\<close>

definition weekday :: "date \<Rightarrow> int" where
  "weekday d = (d + 6) mod 7"

subsection \<open>The parsed document\<close>

text \<open>
  \<^verbatim>\<open>BeautifulSoup(content, 'html.parser')\<close> is the input of the model: a tree of tags
  (with their lower-case names) and text nodes. The three queries the program makes are
  defined on it: \<^verbatim>\<open>find_all\<close> returns the matching tags below a node in document order,
  \<^verbatim>\<open>find\<close> the first of them or \<open>None\<close>, \<^verbatim>\<open>get_text\<close> the concatenated text below.
\<close>

datatype node = Text string | Tag string "node list"

fun descendants :: "node \<Rightarrow> node list" where
  "descendants (Text s) = []"
| "descendants (Tag n cs) = concat (map (\<lambda>c. c # descendants c) cs)"

fun is_tag :: "string list \<Rightarrow> node \<Rightarrow> bool" where
  "is_tag names (Text s) = False"
| "is_tag names (Tag n cs) = (n \<in> set names)"

definition find_all :: "string list \<Rightarrow> node \<Rightarrow> node list" where
  "find_all names n = filter (is_tag names) (descendants n)"

definition find_first :: "string \<Rightarrow> node \<Rightarrow> node option" where
  "find_first name n = (case find_all [name] n of [] \<Rightarrow> None | t # _ \<Rightarrow> Some t)"

fun get_text :: "node \<Rightarrow> string" where
  "get_text (Text s) = s"
| "get_text (Tag n cs) = concat (map get_text cs)"

text \<open>A document contains an element \<open>name\<close>: some tag strictly below the root has that name.\<close>

fun contains_tag :: "string \<Rightarrow> node \<Rightarrow> bool" where
  "contains_tag name (Text s) = False"
| "contains_tag name (Tag n cs) =
     (\<exists>c \<in> set cs. is_tag [name] c \<or> contains_tag name c)"

subsection \<open>The converter's data\<close>

text \<open>
  A dictionary is an association list in insertion order, as Python iterates it;
  \<^verbatim>\<open>d[k] = v\<close> is \<^const>\<open>AList.update\<close> (an existing key keeps its place, a new one goes
  to the end) and \<^verbatim>\<open>d[k]\<close>, \<^verbatim>\<open>k in d\<close> are \<^const>\<open>map_of\<close>.
\<close>

type_synonym 'v period_dict = "(nat \<times> 'v) list"

record day_data =
  day :: string
  subjects :: "string period_dict"

type_synonym schedule = "(date \<times> day_data) list"

record state =
  schedule_data :: schedule
  html_file :: "string option"
  week_vars :: "(date \<times> bool) list"
  before_first :: bool
  end_previous :: bool

text \<open>Wall-clock times are (hour, minute); the tables hold the parsed \<^verbatim>\<open>"%H:%M"\<close> strings.\<close>

type_synonym time = "nat \<times> nat"

text \<open>Time slots for Monday to Thursday\<close>

definition weekday_times :: "(time \<times> time) period_dict" where
  "weekday_times =
     [(1, ((8, 0), (9, 30))),
      (3, ((9, 45), (11, 15))),
      (5, ((11, 25), (12, 10))),
      (6, ((12, 55), (14, 25))),
      (8, ((14, 35), (15, 20))),
      (9, ((15, 30), (17, 0)))]"

text \<open>Time slots for Friday\<close>

definition friday_times :: "(time \<times> time) period_dict" where
  "friday_times =
     [(1, ((8, 0), (9, 30))),
      (3, ((9, 45), (11, 15))),
      (5, ((11, 30), (13, 0))),
      (7, ((13, 0), (14, 30)))]"

text \<open>Subjects to ignore\<close>

definition ignore_subjects :: "string set" where
  "ignore_subjects = {''#NV'', ''Frei'', ''Betrieb'', ''Feiertag'', [], '' ''}"

definition initial_state :: state where
  "initial_state = \<lparr>schedule_data = [], html_file = None, week_vars = [],
                     before_first = True, end_previous = True\<rparr>"

subsection \<open>\<^verbatim>\<open>parse_schedule\<close>\<close>

datatype error = NoTableFound

fun message_of :: "error \<Rightarrow> string" where
  "message_of NoTableFound = ''No table found in HTML file''"

text \<open>The texts of a row's cells: \<^verbatim>\<open>row.find_all(['td', 'th'])\<close>, each read with \<^verbatim>\<open>get_text()\<close>.\<close>

definition row_cells :: "node \<Rightarrow> string list" where
  "row_cells row = map get_text (find_all [''td'', ''th''] row)"

text \<open>The test of the first loop: the rows kept in \<^verbatim>\<open>data_rows\<close>.\<close>

definition is_data_row :: "string list \<Rightarrow> bool" where
  "is_data_row cells =
     (length cells \<ge> 12 \<and> strip (cells ! 0) \<noteq> [] \<and> date_match (strip (cells ! 0)) \<noteq> None)"

definition month_map :: "(string \<times> int) list" where
  "month_map =
     [(''jan'', 1), (''feb'', 2), ([CHR ''m'', CHR 0xE4, CHR ''r''], 3), (''apr'', 4),
      (''mai'', 5), (''jun'', 6), (''jul'', 7), (''aug'', 8), (''sep'', 9), (''okt'', 10),
      (''nov'', 11), (''dez'', 12)]"

text \<open>\<^verbatim>\<open>month_map.get(month_name[:3], 1)\<close>\<close>

definition month_num_of :: "string \<Rightarrow> int" where
  "month_num_of month_name =
     (case map_of month_map (take 3 month_name) of Some m \<Rightarrow> m | None \<Rightarrow> 1)"

text \<open>Determine year (assume current academic year 2025/2026)\<close>

definition year_of :: "int \<Rightarrow> int" where
  "year_of month_num = (if month_num \<ge> 8 then 2025 else 2026)"

text \<open>
  The subject of one cell: the first of the stripped non-empty lines of the stripped
  text, unless there is none or it is an ignored subject.
\<close>

definition cell_subject :: "string \<Rightarrow> string option" where
  "cell_subject text =
     (let subject_text = strip text;
          subject_lines = map strip (filter (\<lambda>line. strip line \<noteq> [])
                                            (split (CHR 0x0A) subject_text))
      in case subject_lines of
           [] \<Rightarrow> None
         | l # _ \<Rightarrow> if l \<notin> ignore_subjects then Some l else None)"

text \<open>The loop over the columns 2 to 11, which are the periods 1 to 10.\<close>

definition row_subjects :: "string list \<Rightarrow> string period_dict" where
  "row_subjects cells =
     foldl (\<lambda>day_schedule i.
              if i < length cells
              then (case cell_subject (cells ! i) of
                      Some s \<Rightarrow> AList.update (i - 1) s day_schedule
                    | None \<Rightarrow> day_schedule)
              else day_schedule)
           [] [2..<12]"

text \<open>The body of the second loop: one data row, applied to \<^verbatim>\<open>self.schedule_data\<close>.\<close>

definition parse_row :: "schedule \<Rightarrow> string list \<Rightarrow> schedule" where
  "parse_row sd cells =
     (if length cells < 12 then sd
      else
        let date_text = strip (cells ! 0);
            day_text = strip (cells ! 1)
        in case date_match date_text of
             None \<Rightarrow> sd
           | Some (g1, g2) \<Rightarrow>
               let day_num = int_of_digits g1;
                   month_name = lower g2;
                   month_num = month_num_of month_name;
                   year = year_of month_num
               in case date_new year month_num day_num of
                    None \<Rightarrow> sd
                  | Some date_obj \<Rightarrow>
                      let day_schedule = row_subjects cells
                      in if day_schedule \<noteq> []
                         then AList.update date_obj
                                \<lparr>day = day_text, subjects = day_schedule\<rparr> sd
                         else sd)"

definition parse_rows :: "schedule \<Rightarrow> string list list \<Rightarrow> schedule" where
  "parse_rows sd rows = foldl parse_row sd (filter is_data_row rows)"

text \<open>
  \<^verbatim>\<open>parse_schedule(soup)\<close>, from the table \<open>sd\<close> that \<^verbatim>\<open>self.schedule_data\<close> holds at
  the call to the one it holds at the return; the exception is \<open>Inl\<close>.
\<close>

definition parse_schedule :: "schedule \<Rightarrow> node \<Rightarrow> error + schedule" where
  "parse_schedule sd soup =
     (case find_first ''table'' soup of
        None \<Rightarrow> Inl NoTableFound
      | Some table \<Rightarrow> Inr (parse_rows sd (map row_cells (find_all [''tr''] table))))"

subsection \<open>\<^verbatim>\<open>display_weeks\<close> and the week check boxes\<close>

text \<open>Get Monday of the week: \<^verbatim>\<open>date_obj - datetime.timedelta(days=date_obj.weekday())\<close>\<close>

definition monday_of :: "date \<Rightarrow> date" where
  "monday_of date_obj = date_obj - weekday date_obj"

text \<open>
  Group dates by week: the dictionary \<^verbatim>\<open>weeks\<close>, from a Monday to the list of its dates,
  filled in the order of the sorted dates.
\<close>

definition add_to_week :: "(date \<times> date list) list \<Rightarrow> date \<Rightarrow> (date \<times> date list) list" where
  "add_to_week weeks date_obj =
     (let monday = monday_of date_obj;
          weeks1 = (if map_of weeks monday = None then AList.update monday [] weeks else weeks)
      in case map_of weeks1 monday of
           None \<Rightarrow> weeks1
         | Some ds \<Rightarrow> AList.update monday (ds @ [date_obj]) weeks1)"

definition group_weeks :: "schedule \<Rightarrow> (date \<times> date list) list" where
  "group_weeks sd = foldl add_to_week [] (sort (map fst sd))"

text \<open>
  \<^verbatim>\<open>display_weeks()\<close>: \<^verbatim>\<open>week_vars\<close> is cleared and gets one variable per week, in the
  order of the Mondays, each created checked. The labels it draws are left out.
\<close>

definition display_weeks :: "state \<Rightarrow> state" where
  "display_weeks st =
     st\<lparr>week_vars := map (\<lambda>monday. (monday, True))
                           (sort (map fst (group_weeks (schedule_data st))))\<rparr>"

definition select_all_weeks :: "state \<Rightarrow> state" where
  "select_all_weeks st = st\<lparr>week_vars := map (\<lambda>(monday, var). (monday, True)) (week_vars st)\<rparr>"

definition deselect_all_weeks :: "state \<Rightarrow> state" where
  "deselect_all_weeks st = st\<lparr>week_vars := map (\<lambda>(monday, var). (monday, False)) (week_vars st)\<rparr>"

text \<open>The user ticks or clears the check box of one week.\<close>

definition set_week :: "date \<Rightarrow> bool \<Rightarrow> state \<Rightarrow> state" where
  "set_week monday b st =
     st\<lparr>week_vars := map (\<lambda>(m, var). (m, if m = monday then b else var)) (week_vars st)\<rparr>"

subsection \<open>\<^verbatim>\<open>load_schedule\<close>\<close>

datatype message = ShowError string | ShowInfo string

text \<open>
  \<open>read_file\<close> stands for opening, reading and parsing the chosen file: the document, or
  the text of the exception raised on the way. Every exception is caught and shown;
  \<^verbatim>\<open>parse_schedule\<close> raises before it has changed the table, so a failed load leaves
  the state as it was.
\<close>

definition load_schedule :: "(string \<Rightarrow> string + node) \<Rightarrow> state \<Rightarrow> state \<times> message" where
  "load_schedule read_file st =
     (case html_file st of
        None \<Rightarrow> (st, ShowError ''Please select an HTML file first!'')
      | Some path \<Rightarrow>
          (case read_file path of
             Inl e \<Rightarrow> (st, ShowError (''Failed to load schedule: '' @ e))
           | Inr soup \<Rightarrow>
               (case parse_schedule (schedule_data st) soup of
                  Inl e \<Rightarrow> (st, ShowError (''Failed to load schedule: '' @ message_of e))
                | Inr sd \<Rightarrow>
                    (display_weeks (st\<lparr>schedule_data := sd\<rparr>),
                     ShowInfo ''Schedule loaded successfully!''))))"

text \<open>\<^verbatim>\<open>browse_file()\<close> with the path the dialog returned (the empty string when cancelled).\<close>

definition browse_file :: "string \<Rightarrow> state \<Rightarrow> state" where
  "browse_file file_path st = (if file_path \<noteq> [] then st\<lparr>html_file := Some file_path\<rparr> else st)"

subsection \<open>\<^verbatim>\<open>generate_ics\<close>\<close>

text \<open>
  A \<^verbatim>\<open>datetime\<close> localized to Europe/Berlin is its date and wall-clock time. The zone
  changes its offset at 02:00 or 03:00 local time only, so two times of one date taken
  from the tables differ by the difference of their wall clocks, counted in minutes.
\<close>

record datetime =
  dt_date :: date
  dt_time :: time

definition minutes_of :: "time \<Rightarrow> int" where
  "minutes_of t = int (fst t) * 60 + int (snd t)"

text \<open>\<^verbatim>\<open>int((a - b).total_seconds() / 60)\<close> for two times of the same date\<close>

definition minutes_between :: "datetime \<Rightarrow> datetime \<Rightarrow> int" where
  "minutes_between a b = minutes_of (dt_time a) - minutes_of (dt_time b)"

text \<open>An alarm's trigger is a \<^verbatim>\<open>timedelta\<close> relative to the start, in minutes.\<close>

record alarm =
  action :: string
  alarm_description :: string
  trigger :: int

record event =
  summary :: string
  dtstart :: datetime
  dtend :: datetime
  description :: string
  alarms :: "alarm list"

record calendar =
  prodid :: string
  version :: string
  calscale :: string
  events :: "event list"

text \<open>The applicable time-slot table\<close>

definition time_schedule_of :: "date \<Rightarrow> (time \<times> time) period_dict" where
  "time_schedule_of date_obj =
     (let is_friday = (weekday date_obj = 4) in if is_friday then friday_times else weekday_times)"

definition first_period_of :: "nat list \<Rightarrow> nat option" where
  "first_period_of sorted_periods = (case sorted_periods of [] \<Rightarrow> None | p # _ \<Rightarrow> Some p)"

text \<open>Find previous lesson for each period: the dictionary \<^verbatim>\<open>previous_lessons\<close>\<close>

definition previous_lessons_of :: "nat list \<Rightarrow> (nat \<rightharpoonup> nat)" where
  "previous_lessons_of sorted_periods =
     fold (\<lambda>i previous_lessons.
             if i > 0
             then previous_lessons(sorted_periods ! i \<mapsto> sorted_periods ! (i - 1))
             else previous_lessons)
          [0..<length sorted_periods] Map.empty"

text \<open>The first reminder: 15 minutes before first lesson of the day\<close>

definition first_alarm :: "bool \<Rightarrow> nat option \<Rightarrow> nat \<Rightarrow> string \<Rightarrow> alarm list" where
  "first_alarm bf first_period period subject =
     (if bf \<and> Some period = first_period
      then [\<lparr>action = ''DISPLAY'',
             alarm_description = ''First lesson starting soon: '' @ subject,
             trigger = - 15\<rparr>]
      else [])"

text \<open>The second reminder: at the end of the previous lesson\<close>

definition previous_alarm ::
  "bool \<Rightarrow> (nat \<rightharpoonup> nat) \<Rightarrow> (time \<times> time) period_dict \<Rightarrow> date \<Rightarrow> datetime \<Rightarrow> nat \<Rightarrow> string
     \<Rightarrow> alarm list" where
  "previous_alarm ep previous_lessons time_schedule date_obj start_datetime period subject =
     (if ep then
        (case previous_lessons period of
           None \<Rightarrow> []
         | Some previous_period \<Rightarrow>
             (case map_of time_schedule previous_period of
                None \<Rightarrow> []
              | Some (prev_start_time, prev_end_time) \<Rightarrow>
                  let prev_end_datetime = \<lparr>dt_date = date_obj, dt_time = prev_end_time\<rparr>;
                      minutes_diff = minutes_between start_datetime prev_end_datetime
                  in [\<lparr>action = ''DISPLAY'',
                        alarm_description = ''Next lesson preparation: '' @ subject,
                        trigger = - minutes_diff\<rparr>]))
      else [])"

text \<open>The body of the loop over \<^verbatim>\<open>subjects.items()\<close>: the event of one lesson, if any.\<close>

definition lesson_event ::
  "bool \<Rightarrow> bool \<Rightarrow> date \<Rightarrow> (time \<times> time) period_dict \<Rightarrow> nat option \<Rightarrow> (nat \<rightharpoonup> nat)
     \<Rightarrow> nat \<times> string \<Rightarrow> event option" where
  "lesson_event bf ep date_obj time_schedule first_period previous_lessons item =
     (let period = fst item; subject = snd item in
      if subject \<in> ignore_subjects then None
      else (case map_of time_schedule period of
              None \<Rightarrow> None
            | Some (start_time, end_time) \<Rightarrow>
                let start_datetime = \<lparr>dt_date = date_obj, dt_time = start_time\<rparr>;
                    end_datetime = \<lparr>dt_date = date_obj, dt_time = end_time\<rparr>
                in Some \<lparr>summary = subject,
                         dtstart = start_datetime,
                         dtend = end_datetime,
                         description = ''Berufsschule - Period '' @ str_nat period,
                         alarms = first_alarm bf first_period period subject
                                  @ previous_alarm ep previous_lessons time_schedule date_obj
                                      start_datetime period subject\<rparr>))"

text \<open>The events of one date of a selected week, in the order of \<^verbatim>\<open>subjects.items()\<close>\<close>

definition day_events :: "bool \<Rightarrow> bool \<Rightarrow> date \<Rightarrow> string period_dict \<Rightarrow> event list" where
  "day_events bf ep date_obj subjs =
     (let time_schedule = time_schedule_of date_obj;
          sorted_periods = sort (map fst subjs);
          first_period = first_period_of sorted_periods;
          previous_lessons = previous_lessons_of sorted_periods
      in List.map_filter
           (lesson_event bf ep date_obj time_schedule first_period previous_lessons) subjs)"

definition week_events :: "state \<Rightarrow> date \<Rightarrow> event list" where
  "week_events st monday =
     (let week_dates = filter (\<lambda>date_obj. date_obj \<ge> monday \<and> date_obj < monday + 7)
                              (map fst (schedule_data st))
      in concat (map (\<lambda>date_obj.
                        case map_of (schedule_data st) date_obj of
                          None \<Rightarrow> []
                        | Some day_data \<Rightarrow>
                            day_events (before_first st) (end_previous st) date_obj
                              (subjects day_data))
                     week_dates))"

text \<open>
  The first part of \<^verbatim>\<open>generate_ics()\<close>, up to the save dialog: the text of the error
  box after which the method returns, or the calendar.
\<close>

definition build_calendar :: "state \<Rightarrow> string + calendar" where
  "build_calendar st =
     (if schedule_data st = [] then Inl ''No schedule data loaded!''
      else
        let selected_weeks = map fst (filter snd (week_vars st))
        in if selected_weeks = [] then Inl ''No weeks selected!''
           else Inr \<lparr>prodid = ''-//Berufsschule Schedule Converter//mxm.dk//'',
                     version = ''2.0'',
                     calscale = ''GREGORIAN'',
                     events = concat (map (week_events st) selected_weeks)\<rparr>)"

text \<open>
  \<^verbatim>\<open>generate_ics()\<close>, with the path the save dialog returned (empty when cancelled) and
  the outcome of writing the file (the exception's text, or \<open>None\<close>): the message box
  shown, if any, and the file written with the calendar it holds, if any.
\<close>

definition generate_ics ::
  "string \<Rightarrow> (string \<Rightarrow> string option) \<Rightarrow> state \<Rightarrow> message option \<times> (string \<times> calendar) option"
  where
  "generate_ics file_path write_file st =
     (case build_calendar st of
        Inl msg \<Rightarrow> (Some (ShowError msg), None)
      | Inr cal \<Rightarrow>
          if file_path \<noteq> [] then
            (case write_file file_path of
               None \<Rightarrow> (Some (ShowInfo (''Calendar saved successfully to '' @ file_path)),
                        Some (file_path, cal))
             | Some e \<Rightarrow> (Some (ShowError (''Failed to save calendar: '' @ e)), None))
          else (None, None))"

subsection \<open>Notions of the statements\<close>

text \<open>
  The invariant of the table: every day schedule holds at least one period, and every
  subject it holds is non-empty and no ignored subject.
\<close>

definition schedule_ok :: "schedule \<Rightarrow> bool" where
  "schedule_ok sd =
     (\<forall>(date_obj, day_data) \<in> set sd.
        subjects day_data \<noteq> []
        \<and> (\<forall>(period, subject) \<in> set (subjects day_data).
              subject \<noteq> [] \<and> subject \<notin> ignore_subjects))"

text \<open>A dictionary's keys are distinct; so are the periods of every day schedule.\<close>

definition periods_distinct :: "schedule \<Rightarrow> bool" where
  "periods_distinct sd = (\<forall>(date_obj, day_data) \<in> set sd. distinct (map fst (subjects day_data)))"


subsection \<open>Sample documents\<close>

text \<open>A document with one table, given by the cell texts of its rows.\<close>

definition td :: "string \<Rightarrow> node" where
  "td s = Tag ''td'' [Text s]"

definition table_doc :: "string list list \<Rightarrow> node" where
  "table_doc rows =
     Tag ''[document]''
       [Tag ''html'' [Tag ''body'' [Tag ''table'' (map (\<lambda>cells. Tag ''tr'' (map td cells)) rows)]]]"

text \<open>Tuesday 2025-09-02: Mathe in period 1, ignored subjects elsewhere.\<close>

definition tuesday_row :: "string list" where
  "tuesday_row = [''02. Sep'', ''Di'', [CHR ''M'', CHR ''a'', CHR ''t'', CHR ''h'', CHR ''e'', CHR 0x0A],
     ''Frei'', ''Frei'', ''#NV'', ''Betrieb'', ''Feiertag'', [], '' '', ''Frei'', ''Frei'']"

text \<open>Friday 2025-09-05: a subject in period 7 only (column 8).\<close>

definition friday_row :: "string list" where
  "friday_row = [''05. Sep'', ''Fr'', ''Frei'', ''Frei'', ''Frei'', ''Frei'', ''Frei'', ''Frei'',
     ''Deutsch'', ''Frei'', ''Frei'', ''Frei'']"

text \<open>Monday 2025-09-08: lessons in the periods 1, 3 and 6.\<close>

definition monday_row :: "string list" where
  "monday_row = [''08. Sep'', ''Mo'', ''Mathe'', ''Frei'', ''Deutsch'', ''Frei'', ''Frei'',
     ''Englisch'', ''Frei'', ''Frei'', ''Frei'', ''Frei'']"

text \<open>Wednesday 2025-09-03: ignored subjects in all ten periods.\<close>

definition free_row :: "string list" where
  "free_row = [''03. Sep'', ''Mi'', ''Frei'', ''Frei'', ''#NV'', ''Betrieb'', ''Feiertag'', [],
     '' '', ''Frei'', ''Frei'', ''Frei'']"

text \<open>Rows with the 31st of February, with an unknown month, and with ``3.M\"ARZ''.\<close>

definition february_row :: "string list" where
  "february_row = [''31. Feb'', ''Di'', ''Mathe'', ''Frei'', ''Frei'', ''Frei'', ''Frei'',
     ''Frei'', ''Frei'', ''Frei'', ''Frei'', ''Frei'']"

definition unknown_month_row :: "string list" where
  "unknown_month_row = [''15. Xyz'', ''Do'', ''Mathe'', ''Frei'', ''Frei'', ''Frei'', ''Frei'',
     ''Frei'', ''Frei'', ''Frei'', ''Frei'', ''Frei'']"

definition march_row :: "string list" where
  "march_row = [[CHR ''3'', CHR ''.'', CHR ''M'', CHR 0xC4, CHR ''R'', CHR ''Z''], ''Di'',
     ''Mathe'', ''Frei'', ''Frei'', ''Frei'', ''Frei'', ''Frei'', ''Frei'', ''Frei'', ''Frei'',
     ''Frei'']"

text \<open>Two rows that are no data rows: the table's header, and a one-cell separator.\<close>

definition header_row :: "string list" where
  "header_row = [''Datum'', ''Tag'', ''1. UE'', ''2. UE'', ''3. UE'', ''4. UE'', ''5. UE'',
     ''6. UE'', ''7. UE'', ''8. UE'', ''9. UE'', ''10. UE'']"

definition short_row :: "string list" where
  "short_row = [''KW 36'']"

text \<open>The state after choosing a file that holds the rows and loading it.\<close>

definition loaded :: "string list list \<Rightarrow> state \<Rightarrow> state" where
  "loaded rows st =
     fst (load_schedule (\<lambda>path. Inr (table_doc rows)) (browse_file ''plan.html'' st))"

section \<open>Properties\<close>

subsection \<open>The date pattern\<close>

text \<open>
  The scan \<^const>\<open>date_match\<close> accepts exactly the strings that start with a match of
  \<^verbatim>\<open>\d{1,2}\.\s*\w+\<close>: one or two digits, a dot, white space, a non-empty word. Its
  second group is the longest word at that place, as the greedy \<^verbatim>\<open>\w+\<close> takes it.
\<close>

lemma word_not_space: "is_word c \<Longrightarrow> \<not> is_space c"
  by (auto simp: is_word_def is_space_def Let_def)

lemma dot_not_digit: "\<not> is_digit (CHR ''.'')"
  by (simp add: is_digit_def)

lemma date_match_sound:
  assumes "date_match s = Some (g1, g2)"
  shows "\<exists>ws rest. s = g1 @ CHR ''.'' # ws @ g2 @ rest
           \<and> g1 \<noteq> [] \<and> length g1 \<le> 2 \<and> (\<forall>c \<in> set g1. is_digit c)
           \<and> (\<forall>c \<in> set ws. is_space c)
           \<and> g2 \<noteq> [] \<and> (\<forall>c \<in> set g2. is_word c)"
proof -
  from assms obtain rest0 where g1: "g1 = takeWhile is_digit (take 2 s)" "g1 \<noteq> []"
    and d: "drop (length g1) s = CHR ''.'' # rest0"
    and g2: "g2 = takeWhile is_word (dropWhile is_space rest0)" "g2 \<noteq> []"
    by (auto simp: date_match_def Let_def split: if_splits list.splits)
  have p: "take (length g1) s = g1"
  proof -
    have "take (length g1) (take 2 s) = g1"
      unfolding g1(1) by (metis takeWhile_eq_take)
    moreover have "length g1 \<le> 2"
      unfolding g1(1) by (metis length_takeWhile_le length_take min.cobounded2 order_trans)
    ultimately show ?thesis by (simp add: min_def)
  qed
  have "s = take (length g1) s @ drop (length g1) s" by simp
  also have "\<dots> = g1 @ CHR ''.'' # rest0" by (simp only: p d)
  also have "rest0 = takeWhile is_space rest0 @ g2 @ dropWhile is_word (dropWhile is_space rest0)"
    unfolding g2(1) by simp
  finally have "s = g1 @ CHR ''.'' # takeWhile is_space rest0 @ g2
                      @ dropWhile is_word (dropWhile is_space rest0)" .
  moreover have "length g1 \<le> 2"
    unfolding g1(1) by (metis length_takeWhile_le length_take min.cobounded2 order_trans)
  moreover have "\<forall>c \<in> set g1. is_digit c"
    unfolding g1(1) by (auto dest: set_takeWhileD)
  moreover have "\<forall>c \<in> set (takeWhile is_space rest0). is_space c"
    by (auto dest: set_takeWhileD)
  moreover have "\<forall>c \<in> set g2. is_word c"
    unfolding g2(1) by (auto dest: set_takeWhileD)
  ultimately show ?thesis
    using g1(2) g2(2) by blast
qed

lemma date_match_complete:
  assumes "s = g1 @ CHR ''.'' # ws @ g2 @ rest"
    and "g1 \<noteq> []" and "length g1 \<le> 2" and "\<forall>c \<in> set g1. is_digit c"
    and "\<forall>c \<in> set ws. is_space c" and "g2 \<noteq> []" and "\<forall>c \<in> set g2. is_word c"
  shows "date_match s = Some (g1, g2 @ takeWhile is_word rest)"
proof -
  have "take 2 s = g1 \<or> (\<exists>t. take 2 s = g1 @ [CHR ''.''])"
    using assms(1,2,3) by (cases g1; cases "tl g1") auto
  then have t: "takeWhile is_digit (take 2 s) = g1"
    using assms(4) dot_not_digit by (auto simp: takeWhile_tail)
  have d: "drop (length g1) s = CHR ''.'' # ws @ g2 @ rest"
    using assms(1) by simp
  obtain c g2' where g2: "g2 = c # g2'"
    using assms(6) by (cases g2) auto
  with assms(7) have "\<not> is_space c"
    by (simp add: word_not_space)
  with assms(5) have w: "dropWhile is_space (ws @ g2 @ rest) = g2 @ rest"
    by (simp add: g2 dropWhile_append3)
  have "takeWhile is_word (g2 @ rest) = g2 @ takeWhile is_word rest"
    using assms(7) by (simp add: takeWhile_append2)
  with t d w assms(2,6) show ?thesis
    by (simp add: date_match_def Let_def)
qed

subsection \<open>Friday's period 7\<close>

text \<open>A lesson whose period has no entry in the applicable table gives no event.\<close>

lemma period_without_slot_skipped:
  "map_of time_schedule (fst item) = None \<Longrightarrow>
     lesson_event bf ep d time_schedule fp pl item = None"
  by (simp add: lesson_event_def Let_def)

lemma friday_period_6_skipped:
  "weekday d = 4 \<Longrightarrow> day_events bf ep d [(6, s)] = []"
  by (simp add: day_events_def Let_def time_schedule_of_def friday_times_def lesson_event_def)

text \<open>
  Claim C1. A Friday whose day schedule holds a subject in period 7 only should give no
  calendar event, period 7 being absent from the Friday table. The table
  \<^const>\<open>friday_times\<close> does hold period 7 (13:00 to 14:30, with the remark "skip this"):
  for Friday 2025-09-05 with the one subject ``Deutsch'' in period 7, one event is built.
\<close>

theorem friday_period_7_is_exported:
  "date_new 2025 9 5 = Some 739499 \<and> weekday 739499 = 4
   \<and> map_of friday_times 7 = Some ((13, 0), (14, 30))
   \<and> schedule_data (loaded [friday_row] initial_state)
       = [(739499, \<lparr>day = ''Fr'', subjects = [(7, ''Deutsch'')]\<rparr>)]
   \<and> day_events True True 739499 [(7, ''Deutsch'')]
       = [\<lparr>summary = ''Deutsch'',
            dtstart = \<lparr>dt_date = 739499, dt_time = (13, 0)\<rparr>,
            dtend = \<lparr>dt_date = 739499, dt_time = (14, 30)\<rparr>,
            description = ''Berufsschule - Period 7'',
            alarms = [\<lparr>action = ''DISPLAY'',
                       alarm_description = ''First lesson starting soon: Deutsch'',
                       trigger = - 15\<rparr>]\<rparr>]
   \<and> map_option (\<lambda>cal. length (events cal))
        (case build_calendar (loaded [friday_row] initial_state) of
           Inl e \<Rightarrow> None | Inr cal \<Rightarrow> Some cal) = Some 1"
  by code_simp

subsection \<open>Export without a schedule or without a selected week\<close>

text \<open>
  Claim C9. When no schedule is loaded, or when no week is selected, \<^verbatim>\<open>generate_ics\<close>
  shows the error of that condition and returns: no calendar is built, whatever the save
  dialog would have returned no file is written.
\<close>

theorem export_without_selection_fails:
  "(schedule_data st = [] \<longrightarrow>
      build_calendar st = Inl ''No schedule data loaded!''
      \<and> generate_ics file_path write_file st
          = (Some (ShowError ''No schedule data loaded!''), None))
   \<and> (schedule_data st \<noteq> [] \<and> (\<forall>(monday, var) \<in> set (week_vars st). \<not> var) \<longrightarrow>
      build_calendar st = Inl ''No weeks selected!''
      \<and> generate_ics file_path write_file st
          = (Some (ShowError ''No weeks selected!''), None))"
proof -
  have "filter snd (week_vars st) = []" if "\<forall>(monday, var) \<in> set (week_vars st). \<not> var"
    using that by (auto simp: filter_empty_conv)
  then show ?thesis
    by (auto simp: build_calendar_def generate_ics_def)
qed

theorem export_without_selection_fails_witness:
  "schedule_data initial_state = []
   \<and> generate_ics ''out.ics'' (\<lambda>path. None) initial_state
       = (Some (ShowError ''No schedule data loaded!''), None)
   \<and> schedule_data (deselect_all_weeks (loaded [tuesday_row] initial_state)) \<noteq> []
   \<and> week_vars (deselect_all_weeks (loaded [tuesday_row] initial_state)) = [(739495, False)]
   \<and> generate_ics ''out.ics'' (\<lambda>path. None)
         (deselect_all_weeks (loaded [tuesday_row] initial_state))
       = (Some (ShowError ''No weeks selected!''), None)"
proof -
  let ?st = "deselect_all_weeks (loaded [tuesday_row] initial_state)"
  have a: "schedule_data initial_state = []"
    by (simp add: initial_state_def)
  have b: "schedule_data ?st \<noteq> []"
    by code_simp
  have c: "week_vars ?st = [(739495, False)]"
    by code_simp
  from c have d: "\<forall>(monday, var) \<in> set (week_vars ?st). \<not> var"
    by simp
  from a b c d
    export_without_selection_fails [of initial_state "''out.ics''" "\<lambda>path. None"]
    export_without_selection_fails [of ?st "''out.ics''" "\<lambda>path. None"]
  show ?thesis by blast
qed

subsection \<open>The table search and the row filter\<close>

lemma find_all_empty_iff:
  "find_all [name] n = [] \<longleftrightarrow> \<not> contains_tag name n"
proof (induction n)
  case (Text s)
  show ?case by (simp add: find_all_def)
next
  case (Tag t cs)
  have "(\<forall>d \<in> set (descendants (Tag t cs)). \<not> is_tag [name] d)
        \<longleftrightarrow> (\<forall>c \<in> set cs. \<not> is_tag [name] c \<and> (\<forall>d \<in> set (descendants c). \<not> is_tag [name] d))"
    by auto
  also have "\<dots> \<longleftrightarrow> (\<forall>c \<in> set cs. \<not> is_tag [name] c \<and> \<not> contains_tag name c)"
    using Tag.IH by (auto simp: find_all_def filter_empty_conv)
  finally show ?case
    by (auto simp: find_all_def filter_empty_conv)
qed

lemma find_first_None_iff:
  "find_first name n = None \<longleftrightarrow> \<not> contains_tag name n"
  using find_all_empty_iff [of name n]
  by (auto simp: find_first_def split: list.splits)

lemma not_data_row:
  "length cells < 12 \<or> date_match (strip (cells ! 0)) = None \<Longrightarrow> \<not> is_data_row cells"
  by (auto simp: is_data_row_def)

text \<open>
  Claim C8. \<^verbatim>\<open>parse_schedule\<close> raises, with ``No table found'', exactly when the document
  contains no table element; with a table it returns. A row with fewer than 12 cells, or
  whose first cell does not match the date pattern, is skipped: the result is the one
  of the same rows without it.
\<close>

theorem no_table_is_the_only_error:
  "(parse_schedule sd soup = Inl NoTableFound \<longleftrightarrow> \<not> contains_tag ''table'' soup)
   \<and> (contains_tag ''table'' soup \<longrightarrow> (\<exists>sd'. parse_schedule sd soup = Inr sd'))
   \<and> (length cells < 12 \<or> date_match (strip (cells ! 0)) = None \<longrightarrow>
        parse_rows sd (rows1 @ cells # rows2) = parse_rows sd (rows1 @ rows2))"
proof -
  have "parse_schedule sd soup = Inl NoTableFound \<longleftrightarrow> find_first ''table'' soup = None"
    by (simp add: parse_schedule_def split: option.splits)
  moreover have "find_first ''table'' soup \<noteq> None \<Longrightarrow> \<exists>sd'. parse_schedule sd soup = Inr sd'"
    by (auto simp: parse_schedule_def split: option.splits)
  moreover have "parse_rows sd (rows1 @ cells # rows2) = parse_rows sd (rows1 @ rows2)"
    if "length cells < 12 \<or> date_match (strip (cells ! 0)) = None"
    using not_data_row [OF that] by (simp add: parse_rows_def)
  ultimately show ?thesis
    using find_first_None_iff [of "''table''" soup] by auto
qed

theorem no_table_is_the_only_error_witness:
  "\<not> contains_tag ''table'' (Tag ''[document]'' [Tag ''p'' [Text ''kein Plan'']])
   \<and> parse_schedule [] (Tag ''[document]'' [Tag ''p'' [Text ''kein Plan'']]) = Inl NoTableFound
   \<and> contains_tag ''table'' (table_doc [header_row, short_row, tuesday_row])
   \<and> parse_schedule [] (table_doc [header_row, short_row, tuesday_row])
       = Inr [(739496, \<lparr>day = ''Di'', subjects = [(1, ''Mathe'')]\<rparr>)]
   \<and> length short_row < 12
   \<and> parse_rows [] ([header_row] @ short_row # [tuesday_row])
       = parse_rows [] ([header_row] @ [tuesday_row])
   \<and> date_match (strip (header_row ! 0)) = None
   \<and> parse_rows [] ([] @ header_row # [tuesday_row]) = parse_rows [] ([] @ [tuesday_row])"
proof -
  let ?empty = "Tag ''[document]'' [Tag ''p'' [Text ''kein Plan'']]"
  let ?doc = "table_doc [header_row, short_row, tuesday_row]"
  have a: "\<not> contains_tag ''table'' ?empty"
    by simp
  have b: "contains_tag ''table'' ?doc"
    by (simp add: table_doc_def)
  have c: "parse_schedule [] ?doc = Inr [(739496, \<lparr>day = ''Di'', subjects = [(1, ''Mathe'')]\<rparr>)]"
    by code_simp
  have d: "length short_row < 12"
    by (simp add: short_row_def)
  have e: "date_match (strip (header_row ! 0)) = None"
    by code_simp
  from a b c d e
    no_table_is_the_only_error [of "[]" ?empty short_row "[header_row]" "[tuesday_row]"]
    no_table_is_the_only_error [of "[]" ?doc header_row "[]" "[tuesday_row]"]
  show ?thesis by simp
qed

subsection \<open>Loading a second file\<close>







subsection \<open>Scenario A: one lesson in period 1\<close>

text \<open>
  Claim C4, as the code has it. The row ``02. Sep'', ``Di'', ``Mathe'' in column 2 and
  ignored subjects elsewhere parses to the one day schedule of 2025-09-02 with period 1
  ``Mathe''; exported with both reminders on, it gives exactly one event with exactly
  one alarm, 15 minutes before the start. Period 1 is the first period of the day and
  has no previous lesson, so no second alarm is attached.
\<close>

theorem scenario_a_one_event_one_alarm:
  "date_new 2025 9 2 = Some 739496
   \<and> parse_schedule [] (table_doc [tuesday_row])
       = Inr [(739496, \<lparr>day = ''Di'', subjects = [(1, ''Mathe'')]\<rparr>)]
   \<and> before_first (loaded [tuesday_row] initial_state)
   \<and> end_previous (loaded [tuesday_row] initial_state)
   \<and> week_vars (loaded [tuesday_row] initial_state) = [(739495, True)]
   \<and> build_calendar (loaded [tuesday_row] initial_state)
       = Inr \<lparr>prodid = ''-//Berufsschule Schedule Converter//mxm.dk//'',
               version = ''2.0'',
               calscale = ''GREGORIAN'',
               events = [\<lparr>summary = ''Mathe'',
                          dtstart = \<lparr>dt_date = 739496, dt_time = (8, 0)\<rparr>,
                          dtend = \<lparr>dt_date = 739496, dt_time = (9, 30)\<rparr>,
                          description = ''Berufsschule - Period 1'',
                          alarms = [\<lparr>action = ''DISPLAY'',
                                     alarm_description = ''First lesson starting soon: Mathe'',
                                     trigger = - 15\<rparr>]\<rparr>]\<rparr>"
  by code_simp

text \<open>The claim as stated asks for two alarms in that event; there is one.\<close>

theorem scenario_a_two_alarms_counterexample:
  "\<not> (\<exists>cal ev. build_calendar (loaded [tuesday_row] initial_state) = Inr cal
                \<and> events cal = [ev] \<and> length (alarms ev) = 2)"
proof -
  have "map_option (\<lambda>cal. map (\<lambda>ev. length (alarms ev)) (events cal))
          (case build_calendar (loaded [tuesday_row] initial_state) of
             Inl e \<Rightarrow> None | Inr cal \<Rightarrow> Some cal) = Some [1]"
    by code_simp
  then show ?thesis by auto
qed

subsection \<open>The date of a row\<close>

lemma month_num_of_table:
  "month_num_of name =
     (let abbr = take 3 name in
      if abbr = ''jan'' then 1 else if abbr = ''feb'' then 2
      else if abbr = [CHR ''m'', CHR 0xE4, CHR ''r''] then 3
      else if abbr = ''apr'' then 4 else if abbr = ''mai'' then 5
      else if abbr = ''jun'' then 6 else if abbr = ''jul'' then 7
      else if abbr = ''aug'' then 8 else if abbr = ''sep'' then 9
      else if abbr = ''okt'' then 10 else if abbr = ''nov'' then 11
      else if abbr = ''dez'' then 12 else 1)"
  by (simp add: month_num_of_def month_map_def Let_def)

lemma month_num_of_range: "1 \<le> month_num_of name \<and> month_num_of name \<le> 12"
  by (simp add: month_num_of_table Let_def)

lemma date_new_academic_year:
  assumes "1 \<le> m" and "m \<le> 12"
  shows "date_new (year_of m) m d
         = (if 1 \<le> d \<and> d \<le> days_in_month (year_of m) m then Some (ymd2ord (year_of m) m d)
            else None)"
  using assms by (simp add: date_new_def year_of_def)

text \<open>
  Claim C5. For a row that passes the data-row test, with the day digits \<open>g1\<close> and the
  month word \<open>g2\<close> of its first cell: the month is looked up by the first three letters
  of the lower-cased word in the German table and is 1 for any other abbreviation; the
  year is 2025 for the months from 8 and 2026 for the others; when the day is no day
  of that month the constructor fails and the row leaves the table unchanged, otherwise
  the row's day schedule (if it holds a period) is stored under that date.
\<close>

theorem row_date_rule:
  assumes "length cells \<ge> 12" and "date_match (strip (cells ! 0)) = Some (g1, g2)"
  shows
    "(let abbr = take 3 (lower g2);
          month_num =
            (if abbr = ''jan'' then 1 else if abbr = ''feb'' then 2
             else if abbr = [CHR ''m'', CHR 0xE4, CHR ''r''] then 3
             else if abbr = ''apr'' then 4 else if abbr = ''mai'' then 5
             else if abbr = ''jun'' then 6 else if abbr = ''jul'' then 7
             else if abbr = ''aug'' then 8 else if abbr = ''sep'' then 9
             else if abbr = ''okt'' then 10 else if abbr = ''nov'' then 11
             else if abbr = ''dez'' then 12 else 1);
          year = (if month_num \<ge> 8 then 2025 else 2026);
          day_num = int_of_digits g1
      in (if 1 \<le> day_num \<and> day_num \<le> days_in_month year month_num
          then date_new year month_num day_num = Some (ymd2ord year month_num day_num)
               \<and> parse_row sd cells
                   = (if row_subjects cells = [] then sd
                      else AList.update (ymd2ord year month_num day_num)
                             \<lparr>day = strip (cells ! 1), subjects = row_subjects cells\<rparr> sd)
          else date_new year month_num day_num = None \<and> parse_row sd cells = sd))"
proof -
  define m where "m = month_num_of (lower g2)"
  have r: "1 \<le> m" "m \<le> 12"
    using month_num_of_range [of "lower g2"] by (simp_all add: m_def)
  have p: "parse_row sd cells =
        (case date_new (year_of m) m (int_of_digits g1) of
           None \<Rightarrow> sd
         | Some date_obj \<Rightarrow>
             if row_subjects cells \<noteq> []
             then AList.update date_obj \<lparr>day = strip (cells ! 1), subjects = row_subjects cells\<rparr> sd
             else sd)"
    using assms by (simp add: parse_row_def Let_def m_def split: option.splits)
  have t: "m = (let abbr = take 3 (lower g2) in
            if abbr = ''jan'' then 1 else if abbr = ''feb'' then 2
             else if abbr = [CHR ''m'', CHR 0xE4, CHR ''r''] then 3
             else if abbr = ''apr'' then 4 else if abbr = ''mai'' then 5
             else if abbr = ''jun'' then 6 else if abbr = ''jul'' then 7
             else if abbr = ''aug'' then 8 else if abbr = ''sep'' then 9
             else if abbr = ''okt'' then 10 else if abbr = ''nov'' then 11
             else if abbr = ''dez'' then 12 else 1)"
    unfolding m_def by (rule month_num_of_table)
  have y: "year_of m = (if m \<ge> 8 then 2025 else 2026)"
    by (simp add: year_of_def)
  have "(if 1 \<le> int_of_digits g1 \<and> int_of_digits g1 \<le> days_in_month (year_of m) m
          then date_new (year_of m) m (int_of_digits g1) = Some (ymd2ord (year_of m) m (int_of_digits g1))
               \<and> parse_row sd cells
                   = (if row_subjects cells = [] then sd
                      else AList.update (ymd2ord (year_of m) m (int_of_digits g1))
                             \<lparr>day = strip (cells ! 1), subjects = row_subjects cells\<rparr> sd)
          else date_new (year_of m) m (int_of_digits g1) = None \<and> parse_row sd cells = sd)"
    unfolding p date_new_academic_year [OF r] by simp
  then show ?thesis
    unfolding Let_def y t [unfolded Let_def, symmetric] .
qed

theorem row_date_rule_witness:
  "12 \<le> length tuesday_row
   \<and> date_match (strip (tuesday_row ! 0)) = Some (''02'', ''Sep'')
   \<and> date_new 2025 9 2 = Some 739496
   \<and> parse_row [] tuesday_row = [(739496, \<lparr>day = ''Di'', subjects = [(1, ''Mathe'')]\<rparr>)]
   \<and> 12 \<le> length february_row
   \<and> date_match (strip (february_row ! 0)) = Some (''31'', ''Feb'')
   \<and> date_new 2026 2 31 = None
   \<and> parse_row [] february_row = []
   \<and> 12 \<le> length unknown_month_row
   \<and> date_match (strip (unknown_month_row ! 0)) = Some (''15'', ''Xyz'')
   \<and> date_new 2026 1 15 = Some 739631
   \<and> parse_row [] unknown_month_row = [(739631, \<lparr>day = ''Do'', subjects = [(1, ''Mathe'')]\<rparr>)]
   \<and> 12 \<le> length march_row
   \<and> date_match (strip (march_row ! 0)) = Some (''3'', [CHR ''M'', CHR 0xC4, CHR ''R'', CHR ''Z''])
   \<and> date_new 2026 3 3 = Some 739678
   \<and> parse_row [] march_row = [(739678, \<lparr>day = ''Di'', subjects = [(1, ''Mathe'')]\<rparr>)]"
proof -
  have l: "12 \<le> length tuesday_row" "12 \<le> length february_row"
    "12 \<le> length unknown_month_row" "12 \<le> length march_row"
    by (simp_all add: tuesday_row_def february_row_def unknown_month_row_def march_row_def)
  have m: "date_match (strip (tuesday_row ! 0)) = Some (''02'', ''Sep'')"
    "date_match (strip (february_row ! 0)) = Some (''31'', ''Feb'')"
    "date_match (strip (unknown_month_row ! 0)) = Some (''15'', ''Xyz'')"
    "date_match (strip (march_row ! 0)) = Some (''3'', [CHR ''M'', CHR 0xC4, CHR ''R'', CHR ''Z''])"
    by code_simp+
  have e: "lower ''Sep'' = ''sep''" "lower ''Feb'' = ''feb''" "lower ''Xyz'' = ''xyz''"
    "lower [CHR ''M'', CHR 0xC4, CHR ''R'', CHR ''Z''] = [CHR ''m'', CHR 0xE4, CHR ''r'', CHR ''z'']"
    "int_of_digits ''02'' = 2" "int_of_digits ''31'' = 31" "int_of_digits ''15'' = 15"
    "int_of_digits ''3'' = 3"
    "days_in_month 2025 9 = 30" "days_in_month 2026 2 = 28" "days_in_month 2026 1 = 31"
    "days_in_month 2026 3 = 31"
    "ymd2ord 2025 9 2 = 739496" "ymd2ord 2026 1 15 = 739631" "ymd2ord 2026 3 3 = 739678"
    "row_subjects tuesday_row = [(1, ''Mathe'')]"
    "row_subjects unknown_month_row = [(1, ''Mathe'')]"
    "row_subjects march_row = [(1, ''Mathe'')]"
    "strip (tuesday_row ! Suc 0) = ''Di''" "strip (unknown_month_row ! Suc 0) = ''Do''"
    "strip (march_row ! Suc 0) = ''Di''"
    by code_simp+
  from row_date_rule [OF l(1) m(1), of "[]"] row_date_rule [OF l(2) m(2), of "[]"]
    row_date_rule [OF l(3) m(3), of "[]"] row_date_rule [OF l(4) m(4), of "[]"] l m
  show ?thesis
    by (simp add: e Let_def)
qed

subsection \<open>Ignored subjects\<close>

lemma set_update_cases:
  "x \<in> set (AList.update k v al) \<Longrightarrow> x = (k, v) \<or> x \<in> set al"
  by (induction al) (auto split: if_splits)

lemma cell_subject_Some:
  assumes "cell_subject text = Some s"
  shows "s \<noteq> [] \<and> s \<notin> ignore_subjects"
proof -
  define ls where "ls = filter (\<lambda>line. strip line \<noteq> []) (split (CHR 0x0A) (strip text))"
  from assms obtain l rest where l: "map strip ls = l # rest" and s: "s = l" "l \<notin> ignore_subjects"
    by (auto simp: cell_subject_def Let_def ls_def split: list.splits if_splits)
  from l obtain x where "x \<in> set ls" "l = strip x"
    by (cases ls) auto
  then have "l \<noteq> []"
    by (auto simp: ls_def)
  with s show ?thesis by simp
qed

lemma foldl_update_entries:
  assumes "\<And>i s. f i = Some s \<Longrightarrow> P s"
    and "\<forall>(p, s) \<in> set acc. P s"
  shows "\<forall>(p, s) \<in> set (foldl (\<lambda>ds i. if c i then (case f i of Some s \<Rightarrow> AList.update (g i) s ds
                                                       | None \<Rightarrow> ds) else ds) acc is). P s"
  using assms(2)
proof (induction "is" arbitrary: acc)
  case Nil
  then show ?case by simp
next
  case (Cons i "is")
  show ?case
    unfolding foldl_Cons
    by (rule Cons.IH) (use Cons.prems assms(1) in \<open>auto split: option.splits dest!: set_update_cases\<close>)
qed

lemma row_subjects_entries:
  "(p, s) \<in> set (row_subjects cells) \<Longrightarrow> s \<noteq> [] \<and> s \<notin> ignore_subjects"
proof -
  have "\<forall>(p, s) \<in> set (row_subjects cells). s \<noteq> [] \<and> s \<notin> ignore_subjects"
    unfolding row_subjects_def
    by (rule foldl_update_entries [where f = "\<lambda>i. cell_subject (cells ! i)"])
       (auto dest: cell_subject_Some)
  then show "(p, s) \<in> set (row_subjects cells) \<Longrightarrow> s \<noteq> [] \<and> s \<notin> ignore_subjects"
    by auto
qed

lemma parse_row_cases:
  "parse_row sd cells = sd
   \<or> (\<exists>date_obj day_text. row_subjects cells \<noteq> []
        \<and> parse_row sd cells
            = AList.update date_obj \<lparr>day = day_text, subjects = row_subjects cells\<rparr> sd)"
  by (auto simp: parse_row_def Let_def split: option.splits)

lemma schedule_ok_parse_row:
  assumes "schedule_ok sd"
  shows "schedule_ok (parse_row sd cells)"
proof -
  consider "parse_row sd cells = sd"
    | date_obj day_text where "row_subjects cells \<noteq> []"
      "parse_row sd cells = AList.update date_obj \<lparr>day = day_text, subjects = row_subjects cells\<rparr> sd"
    using parse_row_cases [of sd cells] by blast
  then show ?thesis
  proof cases
    case 1
    with assms show ?thesis by simp
  next
    case 2
    show ?thesis
      unfolding 2(2) schedule_ok_def
    proof (intro ballI, clarify)
      fix d dd
      assume "(d, dd) \<in> set (AList.update date_obj \<lparr>day = day_text, subjects = row_subjects cells\<rparr> sd)"
      then consider "dd = \<lparr>day = day_text, subjects = row_subjects cells\<rparr>" | "(d, dd) \<in> set sd"
        by (auto dest: set_update_cases)
      then show "subjects dd \<noteq> [] \<and> (\<forall>(period, subject) \<in> set (subjects dd).
              subject \<noteq> [] \<and> subject \<notin> ignore_subjects)"
      proof cases
        case 1
        with 2(1) row_subjects_entries [of _ _ cells] show ?thesis by auto
      next
        case 2
        with assms show ?thesis by (auto simp: schedule_ok_def)
      qed
    qed
  qed
qed

lemma schedule_ok_foldl:
  "schedule_ok sd \<Longrightarrow> schedule_ok (foldl parse_row sd rows)"
  by (induction rows arbitrary: sd) (simp_all add: schedule_ok_parse_row)

lemma lesson_event_summary:
  "lesson_event bf ep d ts fp pl item = Some ev \<Longrightarrow> summary ev = snd item \<and> snd item \<notin> ignore_subjects"
  by (auto simp: lesson_event_def Let_def split: if_splits option.splits)

lemma set_map_filter_iff:
  "y \<in> set (List.map_filter f xs) \<longleftrightarrow> (\<exists>x \<in> set xs. f x = Some y)"
  by (induction xs) (auto split: option.splits)

lemma day_events_origin:
  assumes "ev \<in> set (day_events bf ep d subjs)"
  shows "\<exists>item \<in> set subjs.
           lesson_event bf ep d (time_schedule_of d) (first_period_of (sort (map fst subjs)))
             (previous_lessons_of (sort (map fst subjs))) item = Some ev"
  using assms by (auto simp: day_events_def Let_def set_map_filter_iff)

lemma calendar_event_origin:
  assumes "build_calendar st = Inr cal" and "ev \<in> set (events cal)"
  shows "\<exists>(d, dd) \<in> set (schedule_data st).
           ev \<in> set (day_events (before_first st) (end_previous st) d (subjects dd))"
proof -
  from assms obtain monday where "ev \<in> set (week_events st monday)"
    by (auto simp: build_calendar_def Let_def split: if_splits)
  then obtain d where d: "ev \<in> set (case map_of (schedule_data st) d of None \<Rightarrow> []
      | Some day_data \<Rightarrow> day_events (before_first st) (end_previous st) d (subjects day_data))"
    unfolding week_events_def Let_def by auto
  then obtain dd where "map_of (schedule_data st) d = Some dd"
    and "ev \<in> set (day_events (before_first st) (end_previous st) d (subjects dd))"
    by (cases "map_of (schedule_data st) d") auto
  then show ?thesis
    by (auto dest: map_of_SomeD)
qed

text \<open>
  Claim C6. No event of an exported calendar has an ignored subject as its summary,
  whatever the table holds. The parser keeps the invariant \<^const>\<open>schedule_ok\<close>, which
  holds of the empty table: every stored day schedule has a period, and every stored
  subject is non-empty and not ignored. A row without a surviving period stores nothing.
\<close>

theorem ignored_subjects_never_exported:
  "(build_calendar st = Inr cal \<longrightarrow> (\<forall>ev \<in> set (events cal). summary ev \<notin> ignore_subjects))
   \<and> schedule_ok []
   \<and> (schedule_ok sd \<and> parse_schedule sd soup = Inr sd' \<longrightarrow> schedule_ok sd')
   \<and> (row_subjects cells = [] \<longrightarrow> parse_row sd cells = sd)"
proof -
  have "summary ev \<notin> ignore_subjects" if "build_calendar st = Inr cal" "ev \<in> set (events cal)" for ev
    using calendar_event_origin [OF that] by (auto dest!: day_events_origin lesson_event_summary)
  moreover have "schedule_ok []"
    by (simp add: schedule_ok_def)
  moreover have "schedule_ok sd'" if "schedule_ok sd" "parse_schedule sd soup = Inr sd'"
    using that schedule_ok_foldl [of sd]
    by (auto simp: parse_schedule_def parse_rows_def split: option.splits)
  moreover have "parse_row sd cells = sd" if "row_subjects cells = []"
    using that parse_row_cases [of sd cells] by auto
  ultimately show ?thesis by blast
qed

theorem ignored_subjects_never_exported_witness:
  "build_calendar (loaded [tuesday_row, free_row] initial_state)
     = Inr \<lparr>prodid = ''-//Berufsschule Schedule Converter//mxm.dk//'',
             version = ''2.0'',
             calscale = ''GREGORIAN'',
             events = [\<lparr>summary = ''Mathe'',
                        dtstart = \<lparr>dt_date = 739496, dt_time = (8, 0)\<rparr>,
                        dtend = \<lparr>dt_date = 739496, dt_time = (9, 30)\<rparr>,
                        description = ''Berufsschule - Period 1'',
                        alarms = [\<lparr>action = ''DISPLAY'',
                                   alarm_description = ''First lesson starting soon: Mathe'',
                                   trigger = - 15\<rparr>]\<rparr>]\<rparr>
   \<and> ''Mathe'' \<notin> ignore_subjects
   \<and> schedule_ok []
   \<and> parse_schedule [] (table_doc [tuesday_row, free_row])
       = Inr [(739496, \<lparr>day = ''Di'', subjects = [(1, ''Mathe'')]\<rparr>)]
   \<and> schedule_ok [(739496, \<lparr>day = ''Di'', subjects = [(1, ''Mathe'')]\<rparr>)]
   \<and> row_subjects free_row = []
   \<and> parse_row [(739496, \<lparr>day = ''Di'', subjects = [(1, ''Mathe'')]\<rparr>)] free_row
       = [(739496, \<lparr>day = ''Di'', subjects = [(1, ''Mathe'')]\<rparr>)]"
proof -
  let ?cal = "\<lparr>prodid = ''-//Berufsschule Schedule Converter//mxm.dk//'',
             version = ''2.0'',
             calscale = ''GREGORIAN'',
             events = [\<lparr>summary = ''Mathe'',
                        dtstart = \<lparr>dt_date = 739496, dt_time = (8, 0)\<rparr>,
                        dtend = \<lparr>dt_date = 739496, dt_time = (9, 30)\<rparr>,
                        description = ''Berufsschule - Period 1'',
                        alarms = [\<lparr>action = ''DISPLAY'',
                                   alarm_description = ''First lesson starting soon: Mathe'',
                                   trigger = - 15\<rparr>]\<rparr>]\<rparr>"
  let ?sd = "[(739496, \<lparr>day = ''Di'', subjects = [(1, ''Mathe'')]\<rparr>)]"
  have a: "build_calendar (loaded [tuesday_row, free_row] initial_state) = Inr ?cal"
    by code_simp
  have b: "parse_schedule [] (table_doc [tuesday_row, free_row]) = Inr ?sd"
    by code_simp
  have c: "row_subjects free_row = []"
    by code_simp
  from a b c
    ignored_subjects_never_exported
      [of "loaded [tuesday_row, free_row] initial_state" ?cal "[]"
          "table_doc [tuesday_row, free_row]" ?sd free_row]
    ignored_subjects_never_exported
      [of "loaded [tuesday_row, free_row] initial_state" ?cal ?sd
          "table_doc [tuesday_row, free_row]" ?sd free_row]
  show ?thesis by simp
qed

subsection \<open>The two reminders\<close>

lemma previous_lessons_Some:
  "previous_lessons_of sp p = Some q \<Longrightarrow>
     \<exists>i. 0 < i \<and> i < length sp \<and> sp ! i = p \<and> sp ! (i - 1) = q"
proof -
  have "fold (\<lambda>i pl. if i > 0 then pl(sp ! i \<mapsto> sp ! (i - 1)) else pl) [0..<n] Map.empty p = Some q
        \<Longrightarrow> \<exists>i. 0 < i \<and> i < n \<and> sp ! i = p \<and> sp ! (i - 1) = q" for n
  proof (induction n)
    case 0
    then show ?case by simp
  next
    case (Suc n)
    then show ?case
      by (auto simp: less_Suc_eq split: if_splits)
  qed
  then show "previous_lessons_of sp p = Some q \<Longrightarrow> ?thesis"
    unfolding previous_lessons_of_def by blast
qed

lemma previous_lessons_nth:
  assumes "distinct sp" and "0 < i" and "i < length sp"
  shows "previous_lessons_of sp (sp ! i) = Some (sp ! (i - 1))"
proof -
  have "n \<le> length sp \<Longrightarrow> i < n \<Longrightarrow>
        fold (\<lambda>i pl. if i > 0 then pl(sp ! i \<mapsto> sp ! (i - 1)) else pl) [0..<n] Map.empty (sp ! i)
          = Some (sp ! (i - 1))" for n
  proof (induction n)
    case 0
    then show ?case by simp
  next
    case (Suc n)
    show ?case
    proof (cases "i = n")
      case True
      with assms(2) show ?thesis by simp
    next
      case False
      with Suc.prems have "i < n" "n < length sp" by simp_all
      with assms(1,3) have "sp ! n \<noteq> sp ! i"
        by (simp add: nth_eq_iff_index_eq)
      with Suc.IH \<open>i < n\<close> \<open>n < length sp\<close> show ?thesis by simp
    qed
  qed
  from this [of "length sp"] assms(3) show ?thesis
    by (simp add: previous_lessons_of_def)
qed

lemma previous_lessons_first:
  assumes "distinct sp" and "first_period_of sp = Some p"
  shows "previous_lessons_of sp p = None"
proof (rule ccontr)
  assume "previous_lessons_of sp p \<noteq> None"
  then obtain i where i: "0 < i" "i < length sp" "sp ! i = p"
    using previous_lessons_Some [of sp p] by blast
  from assms(2) have "sp ! 0 = p"
    by (cases sp) (simp_all add: first_period_of_def)
  with i assms(1) show False
    by (metis gr_implies_not0 less_trans nth_eq_iff_index_eq)
qed

lemma first_alarm_cases:
  "first_alarm bf fp p s = [] \<or>
   (fp = Some p \<and> first_alarm bf fp p s
      = [\<lparr>action = ''DISPLAY'', alarm_description = ''First lesson starting soon: '' @ s,
          trigger = - 15\<rparr>])"
  by (auto simp: first_alarm_def)

lemma previous_alarm_cases:
  "previous_alarm ep pl ts d sdt p s = [] \<or>
   (\<exists>q a. pl p = Some q \<and> previous_alarm ep pl ts d sdt p s = [a])"
  by (auto simp: previous_alarm_def Let_def split: option.splits)

lemma lesson_event_alarms:
  assumes "lesson_event bf ep d ts fp pl item = Some ev"
  shows "\<exists>sdt. alarms ev = first_alarm bf fp (fst item) (snd item)
                              @ previous_alarm ep pl ts d sdt (fst item) (snd item)"
  using assms by (auto simp: lesson_event_def Let_def split: if_splits option.splits)

lemma day_events_alarms:
  assumes "distinct (map fst subjs)" and "ev \<in> set (day_events bf ep d subjs)"
  shows "length (alarms ev) \<le> 1"
proof -
  let ?sp = "sort (map fst subjs)"
  from day_events_origin [OF assms(2)] obtain item where
    "lesson_event bf ep d (time_schedule_of d) (first_period_of ?sp) (previous_lessons_of ?sp) item
       = Some ev"
    by blast
  from lesson_event_alarms [OF this] obtain sdt where
    a: "alarms ev = first_alarm bf (first_period_of ?sp) (fst item) (snd item)
          @ previous_alarm ep (previous_lessons_of ?sp) (time_schedule_of d) d sdt (fst item) (snd item)"
    by blast
  have d: "distinct ?sp"
    using assms(1) by simp
  show ?thesis
    using first_alarm_cases [of bf "first_period_of ?sp" "fst item" "snd item"]
      previous_alarm_cases [of ep "previous_lessons_of ?sp" "time_schedule_of d" d sdt "fst item" "snd item"]
      previous_lessons_first [OF d, of "fst item"]
    unfolding a by auto
qed

lemma first_period_least:
  assumes "first_period_of (sort ps) = Some p"
  shows "p \<in> set ps \<and> (\<forall>q \<in> set ps. p \<le> q)"
proof -
  from assms obtain rest where s: "sort ps = p # rest"
    by (auto simp: first_period_of_def split: list.splits)
  have "sorted (p # rest)" "set (p # rest) = set ps"
    unfolding s [symmetric] by simp_all
  then show ?thesis by auto
qed

lemma first_period_of_least:
  assumes "p \<in> set ps" and "\<forall>q \<in> set ps. p \<le> q"
  shows "first_period_of (sort ps) = Some p"
proof -
  from assms(1) have "sort ps \<noteq> []"
    by (metis empty_iff empty_set set_sort)
  then obtain p' rest where s: "sort ps = p' # rest"
    by (cases "sort ps") auto
  then have "first_period_of (sort ps) = Some p'"
    by (simp add: first_period_of_def)
  from first_period_least [OF this] assms have "p' = p"
    by (meson order_antisym)
  with \<open>first_period_of (sort ps) = Some p'\<close> show ?thesis by simp
qed

lemma distinct_foldl_update:
  "distinct (map fst acc) \<Longrightarrow>
   distinct (map fst (foldl (\<lambda>ds i. if c i then (case f i of Some s \<Rightarrow> AList.update (g i) s ds
                                                   | None \<Rightarrow> ds) else ds) acc is))"
proof (induction "is" arbitrary: acc)
  case Nil
  then show ?case by simp
next
  case (Cons i "is")
  show ?case
    unfolding foldl_Cons
    by (rule Cons.IH) (use Cons.prems in \<open>auto split: option.splits intro: distinct_update\<close>)
qed

lemma distinct_row_subjects: "distinct (map fst (row_subjects cells))"
  unfolding row_subjects_def by (rule distinct_foldl_update) simp

lemma periods_distinct_parse_row:
  assumes "periods_distinct sd"
  shows "periods_distinct (parse_row sd cells)"
  using parse_row_cases [of sd cells] assms distinct_row_subjects [of cells]
  by (auto simp: periods_distinct_def dest!: set_update_cases)

lemma periods_distinct_parse_schedule:
  assumes "periods_distinct sd" and "parse_schedule sd soup = Inr sd'"
  shows "periods_distinct sd'"
proof -
  have "periods_distinct (foldl parse_row sd rows)" for rows
    using assms(1) by (induction rows arbitrary: sd) (simp_all add: periods_distinct_parse_row)
  with assms(2) show ?thesis
    by (auto simp: parse_schedule_def parse_rows_def split: option.splits)
qed

text \<open>
  Claim C10. In a calendar built from a table whose day schedules have distinct periods
  (as the keys of a dictionary are, and as \<open>periods_distinct_parse_schedule\<close> shows of
  every parsed table), every event carries at most one alarm, whatever the two reminder
  flags are: the first period of the day is the smallest one present and has no entry
  in the dictionary of previous lessons.
\<close>

theorem at_most_one_alarm:
  "(periods_distinct (schedule_data st) \<and> build_calendar st = Inr cal \<longrightarrow>
      (\<forall>ev \<in> set (events cal). length (alarms ev) \<le> 1))
   \<and> (distinct (map fst subjs) \<and> first_period_of (sort (map fst subjs)) = Some p \<longrightarrow>
        (\<forall>q \<in> fst ` set subjs. p \<le> q)
        \<and> previous_lessons_of (sort (map fst subjs)) p = None)"
proof -
  have "length (alarms ev) \<le> 1"
    if "periods_distinct (schedule_data st)" "build_calendar st = Inr cal" "ev \<in> set (events cal)"
    for ev
  proof -
    from calendar_event_origin [OF that(2,3)] obtain d dd where
      m: "(d, dd) \<in> set (schedule_data st)"
      and e: "ev \<in> set (day_events (before_first st) (end_previous st) d (subjects dd))"
      by blast
    from m that(1) have "distinct (map fst (subjects dd))"
      by (auto simp: periods_distinct_def)
    then show ?thesis
      using e by (rule day_events_alarms)
  qed
  moreover have "(\<forall>q \<in> fst ` set subjs. p \<le> q) \<and> previous_lessons_of (sort (map fst subjs)) p = None"
    if "distinct (map fst subjs)" "first_period_of (sort (map fst subjs)) = Some p"
    using that first_period_least [OF that(2)] previous_lessons_first [of "sort (map fst subjs)" p]
    by auto
  ultimately show ?thesis by blast
qed

theorem at_most_one_alarm_witness:
  "periods_distinct (schedule_data (loaded [monday_row] initial_state))
   \<and> map_option (\<lambda>cal. map (\<lambda>ev. map trigger (alarms ev)) (events cal))
        (case build_calendar (loaded [monday_row] initial_state) of
           Inl e \<Rightarrow> None | Inr cal \<Rightarrow> Some cal)
       = Some [[- 15], [- 15], [- 100]]
   \<and> distinct (map fst [(1 :: nat, ''Mathe''), (3, ''Deutsch''), (6, ''Englisch'')])
   \<and> first_period_of (sort (map fst [(1 :: nat, ''Mathe''), (3, ''Deutsch''), (6, ''Englisch'')]))
       = Some 1
   \<and> previous_lessons_of (sort (map fst [(1 :: nat, ''Mathe''), (3, ''Deutsch''), (6, ''Englisch'')])) 1
       = None"
proof -
  let ?st = "loaded [monday_row] initial_state"
  let ?subjs = "[(1 :: nat, ''Mathe''), (3, ''Deutsch''), (6, ''Englisch'')]"
  have sd: "schedule_data ?st = [(739502, \<lparr>day = ''Mo'', subjects = ?subjs\<rparr>)]"
    by code_simp
  have a: "periods_distinct (schedule_data ?st)"
    unfolding sd by (simp add: periods_distinct_def)
  have c: "map_option (\<lambda>cal. map (\<lambda>ev. map trigger (alarms ev)) (events cal))
        (case build_calendar ?st of Inl e \<Rightarrow> None | Inr cal \<Rightarrow> Some cal)
       = Some [[- 15], [- 15], [- 100]]"
    by code_simp
  then obtain cal where b: "build_calendar ?st = Inr cal"
    by (cases "build_calendar ?st") simp_all
  have d: "distinct (map fst ?subjs)"
    by simp
  have e: "first_period_of (sort (map fst ?subjs)) = Some 1"
    by code_simp
  from at_most_one_alarm [of ?st cal ?subjs 1] a b c d e
  show ?thesis by simp
qed

lemma previous_lessons_predecessor:
  assumes "distinct ps" and "p \<in> set ps" and "q \<in> set ps" and "q < p"
    and "\<forall>r \<in> set ps. r < p \<longrightarrow> r \<le> q"
  shows "previous_lessons_of (sort ps) p = Some q"
proof -
  let ?sp = "sort ps"
  have d: "distinct ?sp" and s: "sorted ?sp" and e: "set ?sp = set ps"
    using assms(1) by simp_all
  from assms(2) e obtain i where i: "i < length ?sp" "?sp ! i = p"
    by (metis in_set_conv_nth)
  from assms(3) e obtain j where j: "j < length ?sp" "?sp ! j = q"
    by (metis in_set_conv_nth)
  have "j < i"
  proof (rule ccontr)
    assume "\<not> j < i"
    then have "i \<le> j" by simp
    with s j(1) have "?sp ! i \<le> ?sp ! j"
      by (simp add: sorted_nth_mono)
    with i j assms(4) show False by simp
  qed
  then have pos: "0 < i" by simp
  let ?r = "?sp ! (i - 1)"
  have r_in: "?r \<in> set ps"
    using i(1) e by (metis less_imp_diff_less nth_mem)
  have "?r \<le> p"
    using s i sorted_nth_mono [of ?sp "i - 1" i] by simp
  moreover have "?r \<noteq> p"
  proof -
    have "i - 1 < length ?sp" using i(1) by simp
    from nth_eq_iff_index_eq [OF d this i(1)] pos i(2) show ?thesis by auto
  qed
  ultimately have "?r < p" by simp
  with assms(5) r_in have "?r \<le> q" by blast
  moreover have "q \<le> ?r"
    using s j(2) i(1) \<open>j < i\<close> sorted_nth_mono [of ?sp j "i - 1"] by simp
  ultimately have "?r = q" by simp
  with previous_lessons_nth [OF d pos i(1)] i(2) show ?thesis by simp
qed

text \<open>
  Claim C3. With both reminders on, a lesson \<open>(p, s)\<close> of the day whose period has a
  table entry gets its event, and: when \<open>p\<close> is the smallest period present, the event's
  one alarm triggers 15 minutes before the start; when \<open>q\<close> is the period present
  immediately before \<open>p\<close> and has a table entry too, the event's one alarm triggers as
  many minutes before the start as lie between the end of \<open>q\<close> and the start of \<open>p\<close>,
  that is at the end of \<open>q\<close>, and at the start itself when the two are back to back.
\<close>

theorem reminder_alarm_times:
  assumes "distinct (map fst subjs)" and "(p, s) \<in> set subjs" and "s \<notin> ignore_subjects"
    and "map_of (time_schedule_of d) p = Some (start, fin)"
  shows "\<exists>ev \<in> set (day_events True True d subjs).
           summary ev = s \<and> description ev = ''Berufsschule - Period '' @ str_nat p
           \<and> dtstart ev = \<lparr>dt_date = d, dt_time = start\<rparr>
           \<and> dtend ev = \<lparr>dt_date = d, dt_time = fin\<rparr>
           \<and> ((\<forall>r \<in> fst ` set subjs. p \<le> r) \<longrightarrow> map trigger (alarms ev) = [- 15])
           \<and> (\<forall>q qstart qfin.
                 q \<in> fst ` set subjs \<and> q < p \<and> (\<forall>r \<in> fst ` set subjs. r < p \<longrightarrow> r \<le> q)
                 \<and> map_of (time_schedule_of d) q = Some (qstart, qfin) \<longrightarrow>
                 (\<exists>a. alarms ev = [a]
                      \<and> trigger a = - (minutes_of start - minutes_of qfin)
                      \<and> minutes_of start + trigger a = minutes_of qfin
                      \<and> (qfin = start \<longrightarrow> trigger a = 0)))"
proof -
  let ?ps = "map fst subjs"
  let ?sp = "sort ?ps"
  let ?fp = "first_period_of ?sp"
  let ?pl = "previous_lessons_of ?sp"
  let ?ts = "time_schedule_of d"
  let ?sdt = "\<lparr>dt_date = d, dt_time = start\<rparr>"
  define ev where "ev = \<lparr>summary = s, dtstart = ?sdt,
      dtend = \<lparr>dt_date = d, dt_time = fin\<rparr>,
      description = ''Berufsschule - Period '' @ str_nat p,
      alarms = first_alarm True ?fp p s @ previous_alarm True ?pl ?ts d ?sdt p s\<rparr>"
  have le: "lesson_event True True d ?ts ?fp ?pl (p, s) = Some ev"
    using assms(3,4) by (simp add: lesson_event_def ev_def Let_def)
  have mem: "ev \<in> set (day_events True True d subjs)"
    unfolding day_events_def Let_def set_map_filter_iff using assms(2) le by blast
  have p_in: "p \<in> set ?ps"
    using assms(2) by force
  have dsp: "distinct ?sp"
    using assms(1) by simp
  have first: "map trigger (alarms ev) = [- 15]" if "\<forall>r \<in> fst ` set subjs. p \<le> r"
  proof -
    from that p_in have f: "?fp = Some p"
      by (intro first_period_of_least) auto
    from previous_lessons_first [OF dsp f] show ?thesis
      by (simp add: ev_def f first_alarm_def previous_alarm_def)
  qed
  have later: "\<exists>a. alarms ev = [a]
                      \<and> trigger a = - (minutes_of start - minutes_of qfin)
                      \<and> minutes_of start + trigger a = minutes_of qfin
                      \<and> (qfin = start \<longrightarrow> trigger a = 0)"
    if q: "q \<in> fst ` set subjs" "q < p" "\<forall>r \<in> fst ` set subjs. r < p \<longrightarrow> r \<le> q"
      "map_of ?ts q = Some (qstart, qfin)" for q qstart qfin
  proof -
    have pq: "?pl p = Some q"
      using q(1,2,3) p_in assms(1) by (intro previous_lessons_predecessor) auto
    have "?fp \<noteq> Some p"
    proof
      assume "?fp = Some p"
      from first_period_least [OF this] q(1,2) show False by auto
    qed
    then have "first_alarm True ?fp p s = []"
      by (auto simp: first_alarm_def)
    then show ?thesis
      by (simp add: ev_def previous_alarm_def pq q(4) minutes_between_def)
  qed
  have fields: "summary ev = s" "description ev = ''Berufsschule - Period '' @ str_nat p"
    "dtstart ev = \<lparr>dt_date = d, dt_time = start\<rparr>" "dtend ev = \<lparr>dt_date = d, dt_time = fin\<rparr>"
    by (simp_all add: ev_def)
  show ?thesis
  proof (rule bexI [OF _ mem], intro conjI allI impI)
    fix q qstart qfin
    assume "q \<in> fst ` set subjs \<and> q < p \<and> (\<forall>r \<in> fst ` set subjs. r < p \<longrightarrow> r \<le> q)
                 \<and> map_of (time_schedule_of d) q = Some (qstart, qfin)"
    then show "\<exists>a. alarms ev = [a]
                      \<and> trigger a = - (minutes_of start - minutes_of qfin)
                      \<and> minutes_of start + trigger a = minutes_of qfin
                      \<and> (qfin = start \<longrightarrow> trigger a = 0)"
      using later [of q qstart qfin] by blast
  qed (use fields first in blast)+
qed

text \<open>
  Monday 2025-09-08 with the periods 1, 3 and 6: the alarm of period 3 fires at 09:30,
  the end of period 1. Friday 2025-09-05 with the periods 5 and 7: back to back.
\<close>

theorem reminder_alarm_times_witness:
  "(\<exists>ev \<in> set (day_events True True 739502 [(1, ''Mathe''), (3, ''Deutsch''), (6, ''Englisch'')]).
      summary ev = ''Mathe'' \<and> dtstart ev = \<lparr>dt_date = 739502, dt_time = (8, 0)\<rparr>
      \<and> map trigger (alarms ev) = [- 15])
   \<and> (\<exists>ev \<in> set (day_events True True 739502 [(1, ''Mathe''), (3, ''Deutsch''), (6, ''Englisch'')]).
      summary ev = ''Deutsch'' \<and> dtstart ev = \<lparr>dt_date = 739502, dt_time = (9, 45)\<rparr>
      \<and> (\<exists>a. alarms ev = [a] \<and> trigger a = - 15
               \<and> minutes_of (9, 45) + trigger a = minutes_of (9, 30)))
   \<and> (\<exists>ev \<in> set (day_events True True 739499 [(5, ''Mathe''), (7, ''Deutsch'')]).
      summary ev = ''Deutsch'' \<and> dtstart ev = \<lparr>dt_date = 739499, dt_time = (13, 0)\<rparr>
      \<and> (\<exists>a. alarms ev = [a] \<and> trigger a = 0))"
proof -
  let ?subjs = "[(1 :: nat, ''Mathe''), (3, ''Deutsch''), (6, ''Englisch'')]"
  let ?fri = "[(5 :: nat, ''Mathe''), (7, ''Deutsch'')]"
  have use_first: "\<exists>ev \<in> set (day_events True True d subjs).
      summary ev = s \<and> dtstart ev = \<lparr>dt_date = d, dt_time = start\<rparr>
      \<and> map trigger (alarms ev) = [- 15]"
    if "distinct (map fst subjs)" "(p, s) \<in> set subjs" "s \<notin> ignore_subjects"
      "map_of (time_schedule_of d) p = Some (start, fin)"
      "\<forall>r \<in> fst ` set subjs. p \<le> r"
    for subjs p s d start fin
  proof -
    from reminder_alarm_times [OF that(1-4)] obtain ev where
      mem: "ev \<in> set (day_events True True d subjs)"
      and body: "summary ev = s \<and> description ev = ''Berufsschule - Period '' @ str_nat p
           \<and> dtstart ev = \<lparr>dt_date = d, dt_time = start\<rparr>
           \<and> dtend ev = \<lparr>dt_date = d, dt_time = fin\<rparr>
           \<and> ((\<forall>r \<in> fst ` set subjs. p \<le> r) \<longrightarrow> map trigger (alarms ev) = [- 15])
           \<and> (\<forall>q qstart qfin.
                 q \<in> fst ` set subjs \<and> q < p \<and> (\<forall>r \<in> fst ` set subjs. r < p \<longrightarrow> r \<le> q)
                 \<and> map_of (time_schedule_of d) q = Some (qstart, qfin) \<longrightarrow>
                 (\<exists>a. alarms ev = [a]
                      \<and> trigger a = - (minutes_of start - minutes_of qfin)
                      \<and> minutes_of start + trigger a = minutes_of qfin
                      \<and> (qfin = start \<longrightarrow> trigger a = 0)))" ..
    from body that(5) have "summary ev = s \<and> dtstart ev = \<lparr>dt_date = d, dt_time = start\<rparr>
        \<and> map trigger (alarms ev) = [- 15]"
      by simp
    with mem show ?thesis ..
  qed
  have use_later: "\<exists>ev \<in> set (day_events True True d subjs).
      summary ev = s \<and> dtstart ev = \<lparr>dt_date = d, dt_time = start\<rparr>
      \<and> (\<exists>a. alarms ev = [a] \<and> trigger a = - (minutes_of start - minutes_of qfin)
               \<and> minutes_of start + trigger a = minutes_of qfin)"
    if "distinct (map fst subjs)" "(p, s) \<in> set subjs" "s \<notin> ignore_subjects"
      "map_of (time_schedule_of d) p = Some (start, fin)"
      "q \<in> fst ` set subjs \<and> q < p \<and> (\<forall>r \<in> fst ` set subjs. r < p \<longrightarrow> r \<le> q)
         \<and> map_of (time_schedule_of d) q = Some (qstart, qfin)"
    for subjs p s d start fin q qstart qfin
  proof -
    from reminder_alarm_times [OF that(1-4)] obtain ev where
      mem: "ev \<in> set (day_events True True d subjs)"
      and body: "summary ev = s \<and> description ev = ''Berufsschule - Period '' @ str_nat p
           \<and> dtstart ev = \<lparr>dt_date = d, dt_time = start\<rparr>
           \<and> dtend ev = \<lparr>dt_date = d, dt_time = fin\<rparr>
           \<and> ((\<forall>r \<in> fst ` set subjs. p \<le> r) \<longrightarrow> map trigger (alarms ev) = [- 15])
           \<and> (\<forall>q qstart qfin.
                 q \<in> fst ` set subjs \<and> q < p \<and> (\<forall>r \<in> fst ` set subjs. r < p \<longrightarrow> r \<le> q)
                 \<and> map_of (time_schedule_of d) q = Some (qstart, qfin) \<longrightarrow>
                 (\<exists>a. alarms ev = [a]
                      \<and> trigger a = - (minutes_of start - minutes_of qfin)
                      \<and> minutes_of start + trigger a = minutes_of qfin
                      \<and> (qfin = start \<longrightarrow> trigger a = 0)))" ..
    from body have fields: "summary ev = s" "dtstart ev = \<lparr>dt_date = d, dt_time = start\<rparr>"
      by simp_all
    from body have "\<forall>q qstart qfin.
                 q \<in> fst ` set subjs \<and> q < p \<and> (\<forall>r \<in> fst ` set subjs. r < p \<longrightarrow> r \<le> q)
                 \<and> map_of (time_schedule_of d) q = Some (qstart, qfin) \<longrightarrow>
                 (\<exists>a. alarms ev = [a]
                      \<and> trigger a = - (minutes_of start - minutes_of qfin)
                      \<and> minutes_of start + trigger a = minutes_of qfin
                      \<and> (qfin = start \<longrightarrow> trigger a = 0))"
      by (elim conjE)
    from this [rule_format, OF that(5)] obtain a where "alarms ev = [a]"
      "trigger a = - (minutes_of start - minutes_of qfin)"
      "minutes_of start + trigger a = minutes_of qfin"
      by auto
    with fields have "summary ev = s \<and> dtstart ev = \<lparr>dt_date = d, dt_time = start\<rparr>
      \<and> (\<exists>a. alarms ev = [a] \<and> trigger a = - (minutes_of start - minutes_of qfin)
               \<and> minutes_of start + trigger a = minutes_of qfin)"
      by simp
    with mem show ?thesis ..
  qed
  have ign: "''Mathe'' \<notin> ignore_subjects" "''Deutsch'' \<notin> ignore_subjects"
    by (simp_all add: ignore_subjects_def)
  have mon: "time_schedule_of 739502 = weekday_times"
    by (simp add: time_schedule_of_def weekday_def)
  have fri: "time_schedule_of 739499 = friday_times"
    by (simp add: time_schedule_of_def weekday_def)
  have t1: "map_of (time_schedule_of 739502) 1 = Some ((8, 0), (9, 30))"
    and t3: "map_of (time_schedule_of 739502) 3 = Some ((9, 45), (11, 15))"
    unfolding mon by (simp_all add: weekday_times_def)
  have f5: "map_of (time_schedule_of 739499) 5 = Some ((11, 30), (13, 0))"
    and f7: "map_of (time_schedule_of 739499) 7 = Some ((13, 0), (14, 30))"
    unfolding fri by (simp_all add: friday_times_def)
  have dm: "distinct (map fst ?subjs)" and df: "distinct (map fst ?fri)"
    by simp_all
  have m1: "(1, ''Mathe'') \<in> set ?subjs" and m3: "(3, ''Deutsch'') \<in> set ?subjs"
    and m7: "(7, ''Deutsch'') \<in> set ?fri"
    by simp_all
  have first: "\<exists>ev \<in> set (day_events True True 739502 ?subjs).
      summary ev = ''Mathe'' \<and> dtstart ev = \<lparr>dt_date = 739502, dt_time = (8, 0)\<rparr>
      \<and> map trigger (alarms ev) = [- 15]"
    proof -
    have "\<forall>r \<in> fst ` set ?subjs. 1 \<le> r" by simp
    from use_first [OF dm m1 ign(1) t1 this] show ?thesis .
  qed
  have third: "\<exists>ev \<in> set (day_events True True 739502 ?subjs).
      summary ev = ''Deutsch'' \<and> dtstart ev = \<lparr>dt_date = 739502, dt_time = (9, 45)\<rparr>
      \<and> (\<exists>a. alarms ev = [a] \<and> trigger a = - 15
               \<and> minutes_of (9, 45) + trigger a = minutes_of (9, 30))"
  proof -
    have "1 \<in> fst ` set ?subjs \<and> (1 :: nat) < 3 \<and> (\<forall>r \<in> fst ` set ?subjs. r < 3 \<longrightarrow> r \<le> 1)
        \<and> map_of (time_schedule_of 739502) 1 = Some ((8, 0), (9, 30))"
      using t1 by simp
    from use_later [OF dm m3 ign(2) t3 this] show ?thesis
      by (simp add: minutes_of_def)
  qed
  have friday: "\<exists>ev \<in> set (day_events True True 739499 ?fri).
      summary ev = ''Deutsch'' \<and> dtstart ev = \<lparr>dt_date = 739499, dt_time = (13, 0)\<rparr>
      \<and> (\<exists>a. alarms ev = [a] \<and> trigger a = 0)"
  proof -
    have "5 \<in> fst ` set ?fri \<and> (5 :: nat) < 7 \<and> (\<forall>r \<in> fst ` set ?fri. r < 7 \<longrightarrow> r \<le> 5)
        \<and> map_of (time_schedule_of 739499) 5 = Some ((11, 30), (13, 0))"
      using f5 by simp
    from use_later [OF df m7 ign(2) f7 this] show ?thesis
      by (simp add: minutes_of_def)
  qed
  from first third friday show ?thesis by simp
qed

subsection \<open>Weeks\<close>

lemma weekday_range: "0 \<le> weekday d \<and> weekday d < 7"
  by (simp add: weekday_def)












end
